theory Spec2Isabelle
  imports Main "HOL-Library.Char_ord" "HOL-Library.List_Lexorder" "HOL-Library.Multiset"
begin

section \<open>Values, records and exceptions\<close>

text \<open>
  The program reads repository metadata that was decoded from JSON. A field value is a
  scalar: the program only ever reads names, addresses, timestamps (text) and counts
  (integers) of a record; nested arrays and objects of the remote record are never read
  and are left out of the value type, as are non-integral numbers.
\<close>

datatype json = JNull | JBool bool | JInt int | JStr string

text \<open>
  A Python \<open>dict\<close> with text keys, as an association list read with \<open>map_of\<close>.
  A value of type \<open>Dict[str, Any]\<close> may also be \<open>None\<close> at run time, which both
  classifiers test for: \<open>None\<close> of HOL is \<open>None\<close> of Python.
\<close>

type_synonym dict = "(string \<times> json) list"
type_synonym repo_info = "dict option"

text \<open>
  Exceptions. \<open>HTTPError\<close> is the subclass of \<open>requests.RequestException\<close> that
  \<open>raise_for_status\<close> raises; \<open>RequestException\<close> stands for every other member
  of that class (connection failures, time-outs, undecodable bodies). The others are
  built-in exceptions outside that class.
\<close>

datatype exn =
    RequestException string
  | HTTPError int
  | KeyError string
  | ValueError
  | TypeError
  | OSError
  | OverflowError
  | RecursionError

fun is_request_exception :: "exn \<Rightarrow> bool" where
  "is_request_exception (RequestException m) = True"
| "is_request_exception (HTTPError c) = True"
| "is_request_exception e = False"

record response =
  status_code :: int
  headers :: "string \<rightharpoonup> string"
  json_items :: "exn + repo_info list"

text \<open>
  \<open>headers\<close> is the lookup \<open>response.headers[k]\<close> at the names the program uses;
  \<open>json_items\<close> is the outcome of evaluating \<open>response.json()['items']\<close>, which
  raises when the body is not JSON or has no such member.
\<close>

datatype get_result = Raises exn | Returns response

record analysis_result =
  res_name :: json
  res_url :: json
  res_description :: json
  res_stars :: json
  res_open_issues :: json
  res_last_push :: json
  res_created_at :: json
  res_is_outdated :: bool
  res_is_broken :: bool

section \<open>The environment and the state of a run\<close>

text \<open>
  Everything outside the program is a parameter: the answer of the server to the
  \<open>n\<close>-th request of the run, the clock readings, and the two library parsers
  (\<open>int\<close> on header text, \<open>datetime.strptime\<close> with the format
  \<open>%Y-%m-%dT%H:%M:%SZ\<close>). A \<open>datetime\<close> is a count of microseconds, so that
  the difference of two of them is the exact \<open>timedelta\<close> Python computes.
\<close>

record env =
  http_get :: "string \<Rightarrow> nat \<Rightarrow> get_result"
  time_time :: "nat \<Rightarrow> int"
  py_int :: "string \<Rightarrow> int option"
  strptime :: "json \<Rightarrow> exn + int"
  utcnow :: "nat \<Rightarrow> int"
  can_open :: "string \<Rightarrow> bool"

datatype event = Get string | Sleep int | Write string "analysis_result list"

text \<open>
  The state counts the requests issued and the readings of \<open>datetime.utcnow()\<close>
  so far, and records requests, sleeps and the file written, in order. Console output
  is not modelled.
\<close>

record st =
  calls :: nat
  ticks :: nat
  trace :: "event list"

definition MAX_RETRIES :: nat where
  "MAX_RETRIES = 3"

definition OUTDATED_THRESHOLD_DAYS :: int where
  "OUTDATED_THRESHOLD_DAYS = 365"

definition BROKEN_THRESHOLD_DAYS :: int where
  "BROKEN_THRESHOLD_DAYS = 180"

definition BROKEN_ISSUES_THRESHOLD :: int where
  "BROKEN_ISSUES_THRESHOLD = 10"

definition BASE_URL :: string where
  "BASE_URL = ''https://api.github.com''"

section \<open>Python primitives the program uses\<close>

text \<open>\<open>not x\<close> on a dictionary or \<open>None\<close>.\<close>

definition py_not :: "repo_info \<Rightarrow> bool" where
  "py_not repo_info = (case repo_info of None \<Rightarrow> True | Some d \<Rightarrow> d = [])"

text \<open>\<open>k in d\<close>; the program evaluates it only behind \<open>not d\<close>, on a dictionary.\<close>

definition py_in :: "string \<Rightarrow> repo_info \<Rightarrow> bool" where
  "py_in k repo_info = (case repo_info of None \<Rightarrow> False | Some d \<Rightarrow> map_of d k \<noteq> None)"

text \<open>\<open>d[k]\<close>: a missing key raises \<open>KeyError\<close>, \<open>None[k]\<close> raises \<open>TypeError\<close>.\<close>

definition subscript :: "repo_info \<Rightarrow> string \<Rightarrow> exn + json" where
  "subscript repo_info k =
     (case repo_info of
        None \<Rightarrow> Inl TypeError
      | Some d \<Rightarrow> (case map_of d k of None \<Rightarrow> Inl (KeyError k) | Some v \<Rightarrow> Inr v))"

text \<open>\<open>d.get(k, default)\<close>, evaluated by the program on dictionaries only.\<close>

definition dict_get :: "repo_info \<Rightarrow> string \<Rightarrow> json \<Rightarrow> json" where
  "dict_get repo_info k dflt =
     (case repo_info of
        None \<Rightarrow> dflt
      | Some d \<Rightarrow> (case map_of d k of None \<Rightarrow> dflt | Some v \<Rightarrow> v))"

text \<open>Numbers under Python's comparison: \<open>bool\<close> is a subclass of \<open>int\<close>.\<close>

fun num_key :: "json \<Rightarrow> int option" where
  "num_key (JInt n) = Some n"
| "num_key (JBool b) = Some (if b then 1 else 0)"
| "num_key v = None"


text \<open>\<open>v > k\<close> for an integer \<open>k\<close>: text and \<open>None\<close> raise \<open>TypeError\<close>.\<close>

definition py_gt :: "json \<Rightarrow> int \<Rightarrow> exn + bool" where
  "py_gt v k = (case num_key v of None \<Rightarrow> Inl TypeError | Some n \<Rightarrow> Inr (n > k))"

text \<open>\<open>timedelta(days=n)\<close> in microseconds.\<close>

definition timedelta_days :: "int \<Rightarrow> int" where
  "timedelta_days n = n * 86400 * 1000000"

text \<open>\<open>datetime.utcnow()\<close>: the next reading of the clock.\<close>

definition datetime_utcnow :: "env \<Rightarrow> st \<Rightarrow> int \<times> st" where
  "datetime_utcnow E s = (utcnow E (ticks s), s\<lparr>ticks := ticks s + 1\<rparr>)"

text \<open>\<open>xs[:n]\<close>: a negative bound counts from the end.\<close>

definition slice_to :: "'a list \<Rightarrow> int \<Rightarrow> 'a list" where
  "slice_to xs n =
     (if 0 \<le> n then take (nat n) xs else take (length xs - nat (- n)) xs)"

text \<open>\<open>str(n)\<close> for an integer: decimal digits, a minus sign when negative.\<close>

definition digit_char :: "nat \<Rightarrow> char" where
  "digit_char d = ''0123456789'' ! d"

fun str_nat :: "nat \<Rightarrow> string" where
  "str_nat n =
     (if n < 10 then [digit_char n]
      else str_nat (n div 10) @ [digit_char (n mod 10)])"

declare str_nat.simps [simp del]

definition str_int :: "int \<Rightarrow> string" where
  "str_int i = (if i < 0 then CHR ''-'' # str_nat (nat (- i)) else str_nat (nat i))"

section \<open>The classifiers\<close>

definition is_repo_outdated :: "env \<Rightarrow> repo_info \<Rightarrow> st \<Rightarrow> (exn + bool) \<times> st" where
  "is_repo_outdated E repo_info s =
     (if py_not repo_info \<or> \<not> py_in ''pushed_at'' repo_info then (Inr False, s)
      else
        case subscript repo_info ''pushed_at'' of
          Inl e \<Rightarrow> (Inl e, s)
        | Inr pushed_at \<Rightarrow>
            (case strptime E pushed_at of
               Inl e \<Rightarrow> (Inl e, s)
             | Inr last_push \<Rightarrow>
                 (let (now, s1) = datetime_utcnow E s
                  in (Inr (now - last_push > timedelta_days OUTDATED_THRESHOLD_DAYS), s1))))"

definition is_repo_broken :: "env \<Rightarrow> repo_info \<Rightarrow> st \<Rightarrow> (exn + bool) \<times> st" where
  "is_repo_broken E repo_info s =
     (if py_not repo_info \<or> \<not> py_in ''pushed_at'' repo_info then (Inr False, s)
      else
        case subscript repo_info ''pushed_at'' of
          Inl e \<Rightarrow> (Inl e, s)
        | Inr pushed_at \<Rightarrow>
            (case strptime E pushed_at of
               Inl e \<Rightarrow> (Inl e, s)
             | Inr last_push \<Rightarrow>
                 (case py_gt (dict_get repo_info ''open_issues_count'' (JInt 0))
                         BROKEN_ISSUES_THRESHOLD of
                    Inl e \<Rightarrow> (Inl e, s)
                  | Inr has_open_issues \<Rightarrow>
                      (let (now, s1) = datetime_utcnow E s;
                           no_recent_commits =
                             (now - last_push > timedelta_days BROKEN_THRESHOLD_DAYS)
                       in (Inr (has_open_issues \<and> no_recent_commits), s1)))))"

section \<open>The request wrapper\<close>

text \<open>
  \<open>response.raise_for_status()\<close> of the library: a status from 400 to 599 raises
  \<open>HTTPError\<close>.
\<close>

definition raise_for_status :: "response \<Rightarrow> exn + unit" where
  "raise_for_status r =
     (if 400 \<le> status_code r \<and> status_code r < 600 then Inl (HTTPError (status_code r))
      else Inr ())"

text \<open>
  The rate-limit test of \<open>make_request\<close>, up to the computation of \<open>sleep_time\<close>:
  \<open>Inr None\<close> when the response is not a rate-limit answer, \<open>Inr (Some t)\<close> when the
  program is to sleep \<open>t\<close> seconds, \<open>Inl e\<close> when a header lookup or \<open>int\<close> raises.
  \<open>n\<close> is the number of the request, at which the clock is read.
\<close>

definition rate_limit_wait :: "env \<Rightarrow> response \<Rightarrow> nat \<Rightarrow> exn + int option" where
  "rate_limit_wait E r n =
     (if status_code r = 403 \<and> headers r ''X-RateLimit-Remaining'' \<noteq> None then
        (case py_int E (the (headers r ''X-RateLimit-Remaining'')) of
           None \<Rightarrow> Inl ValueError
         | Some remaining \<Rightarrow>
             if remaining = 0 then
               (case headers r ''X-RateLimit-Reset'' of
                  None \<Rightarrow> Inl (KeyError ''X-RateLimit-Reset'')
                | Some v \<Rightarrow>
                    (case py_int E v of
                       None \<Rightarrow> Inl ValueError
                     | Some reset_time \<Rightarrow> Inr (Some (reset_time - time_time E n + 1))))
             else Inr None)
      else Inr None)"

text \<open>
  \<open>time.sleep(t)\<close> of the library, for an integer \<open>t\<close>: a negative length raises
  \<open>ValueError\<close>, and a length above 9223372036 seconds, which does not fit the
  interpreter's clock type, raises \<open>OverflowError\<close>.
\<close>

definition SLEEP_MAX :: int where
  "SLEEP_MAX = 9223372036"

definition time_sleep :: "int \<Rightarrow> st \<Rightarrow> exn + st" where
  "time_sleep t s =
     (if t < 0 then Inl ValueError
      else if SLEEP_MAX < t then Inl OverflowError
      else Inr (s\<lparr>trace := trace s @ [Sleep t]\<rparr>))"

text \<open>
  The interpreter's limit on the depth of recursion (\<open>sys.getrecursionlimit()\<close>, 1000
  unless changed), counted here in nested calls of \<open>make_request\<close>: a call beyond it
  raises \<open>RecursionError\<close>. The frames of the callers and of the library make the
  number of nested calls that really fit somewhat smaller.
\<close>

definition RECURSION_LIMIT :: nat where
  "RECURSION_LIMIT = 1000"

text \<open>
  \<open>make_request\<close> calls itself from two places: inside the \<open>try\<close> block after a
  rate-limit wait (with the retry counter back at its default 0), and from the handler.
  An exception of the inner call made inside \<open>try\<close> reaches the handler of the outer
  one, which takes the exceptions of class \<open>RequestException\<close> only.
  \<open>make_request_at\<close> is the function together with the number \<open>depth\<close> of calls of
  itself that it is nested in; every call made from outside starts at depth 0.
\<close>

partial_function (option) make_request_at ::
  "env \<Rightarrow> string \<Rightarrow> nat \<Rightarrow> nat \<Rightarrow> st \<Rightarrow> ((exn + response) \<times> st) option" where
  "make_request_at E url retry_count depth s =
     (if RECURSION_LIMIT \<le> depth then Some (Inl RecursionError, s)
      else
        (let s1 = s\<lparr>calls := calls s + 1, trace := trace s @ [Get url]\<rparr> in
         Option.bind
           (case http_get E url (calls s) of
              Raises e \<Rightarrow> Some (Inl e, s1)
            | Returns r \<Rightarrow>
                (case rate_limit_wait E r (calls s) of
                   Inl e \<Rightarrow> Some (Inl e, s1)
                 | Inr (Some sleep_time) \<Rightarrow>
                     (case time_sleep sleep_time s1 of
                        Inl e \<Rightarrow> Some (Inl e, s1)
                      | Inr s1' \<Rightarrow> make_request_at E url 0 (depth + 1) s1')
                 | Inr None \<Rightarrow>
                     (case raise_for_status r of
                        Inl e \<Rightarrow> Some (Inl e, s1)
                      | Inr u \<Rightarrow> Some (Inr r, s1))))
           (\<lambda>(res, s2).
              case res of
                Inr r \<Rightarrow> Some (Inr r, s2)
              | Inl e \<Rightarrow>
                  if is_request_exception e \<and> retry_count < MAX_RETRIES then
                    (case time_sleep (2 ^ retry_count) s2 of
                       Inl e' \<Rightarrow> Some (Inl e', s2)
                     | Inr s2' \<Rightarrow> make_request_at E url (retry_count + 1) (depth + 1) s2')
                  else Some (Inl e, s2))))"

definition make_request ::
  "env \<Rightarrow> string \<Rightarrow> nat \<Rightarrow> st \<Rightarrow> ((exn + response) \<times> st) option" where
  "make_request E url retry_count s = make_request_at E url retry_count 0 s"

section \<open>Repository search\<close>

definition search_url :: "string \<Rightarrow> string \<Rightarrow> string \<Rightarrow> int \<Rightarrow> string" where
  "search_url query sort_by order per_page =
     BASE_URL @ ''/search/repositories?q='' @ query @ ''&sort='' @ sort_by
       @ ''&order='' @ order @ ''&per_page='' @ str_int per_page"

text \<open>
  The \<open>while\<close> loop of \<open>search_repos\<close> on its variables \<open>all_repos\<close> and
  \<open>page\<close>. Every \<open>break\<close> and the exit of the loop lead to the one
  \<open>return all_repos[:max_repos]\<close>. The two statements inside \<open>try\<close> that can raise
  are the request and \<open>response.json()['items']\<close>; the handler takes the exceptions of
  class \<open>RequestException\<close> only. The loop goes round again only after a page that
  was not empty, so it ends whenever each request returns.
\<close>

function search_loop ::
  "env \<Rightarrow> string \<Rightarrow> int \<Rightarrow> repo_info list \<Rightarrow> nat \<Rightarrow> st
     \<Rightarrow> ((exn + repo_info list) \<times> st) option" where
  "search_loop E url max_repos all_repos page s =
     (if int (length all_repos) < max_repos then
        (case make_request E (url @ ''&page='' @ str_nat page) 0 s of
           None \<Rightarrow> None
         | Some (res, s1) \<Rightarrow>
             (case (case res of Inl e \<Rightarrow> Inl e | Inr r \<Rightarrow> json_items r) of
                Inl e \<Rightarrow>
                  if is_request_exception e then Some (Inr (slice_to all_repos max_repos), s1)
                  else Some (Inl e, s1)
              | Inr repos \<Rightarrow>
                  if repos = [] then Some (Inr (slice_to all_repos max_repos), s1)
                  else if int (length (all_repos @ repos)) \<ge> max_repos
                    then Some (Inr (slice_to (all_repos @ repos) max_repos), s1)
                  else search_loop E url max_repos (all_repos @ repos) (page + 1) s1))
      else Some (Inr (slice_to all_repos max_repos), s))"
  by pat_completeness auto
termination
  by (relation "measure (\<lambda>(E, url, max_repos, all_repos, page, s).
        nat (max_repos - int (length all_repos)))") auto

declare search_loop.simps [simp del]

definition search_repos ::
  "env \<Rightarrow> string \<Rightarrow> string \<Rightarrow> string \<Rightarrow> int \<Rightarrow> int \<Rightarrow> st
     \<Rightarrow> ((exn + repo_info list) \<times> st) option" where
  "search_repos E query sort_by order per_page max_repos s =
     search_loop E (search_url query sort_by order per_page) max_repos [] 1 s"

section \<open>The report builder\<close>

text \<open>
  The dictionary display of \<open>check_repository\<close> evaluates its entries from top to
  bottom; the first one that raises ends the call.
\<close>

definition check_repository ::
  "env \<Rightarrow> repo_info \<Rightarrow> st \<Rightarrow> (exn + analysis_result) \<times> st" where
  "check_repository E repo_info s =
     (case subscript repo_info ''full_name'' of
        Inl e \<Rightarrow> (Inl e, s)
      | Inr full_name \<Rightarrow>
     (case subscript repo_info ''html_url'' of
        Inl e \<Rightarrow> (Inl e, s)
      | Inr html_url \<Rightarrow>
     (let description = dict_get repo_info ''description'' (JStr []) in
     (case subscript repo_info ''stargazers_count'' of
        Inl e \<Rightarrow> (Inl e, s)
      | Inr stargazers_count \<Rightarrow>
     (case subscript repo_info ''open_issues_count'' of
        Inl e \<Rightarrow> (Inl e, s)
      | Inr open_issues_count \<Rightarrow>
     (case subscript repo_info ''pushed_at'' of
        Inl e \<Rightarrow> (Inl e, s)
      | Inr pushed_at \<Rightarrow>
     (case subscript repo_info ''created_at'' of
        Inl e \<Rightarrow> (Inl e, s)
      | Inr created_at \<Rightarrow>
     (case is_repo_outdated E repo_info s of
        (Inl e, s1) \<Rightarrow> (Inl e, s1)
      | (Inr is_outdated, s1) \<Rightarrow>
     (case is_repo_broken E repo_info s1 of
        (Inl e, s2) \<Rightarrow> (Inl e, s2)
      | (Inr is_broken, s2) \<Rightarrow>
          (Inr \<lparr> res_name = full_name, res_url = html_url,
                 res_description = description, res_stars = stargazers_count,
                 res_open_issues = open_issues_count, res_last_push = pushed_at,
                 res_created_at = created_at, res_is_outdated = is_outdated,
                 res_is_broken = is_broken \<rparr>, s2))))))))))"

section \<open>The orchestrator\<close>







section \<open>Notions used in the statements, and sample inputs\<close>

text \<open>
  An attempt of \<open>make_request\<close> ends in an exception of class \<open>RequestException\<close>
  when the request itself raises one, or when the answer is not a rate-limit answer and
  \<open>raise_for_status\<close> raises.
\<close>

definition request_fails :: "env \<Rightarrow> string \<Rightarrow> nat \<Rightarrow> exn \<Rightarrow> bool" where
  "request_fails E url n e =
     (is_request_exception e \<and>
      (case http_get E url n of
         Raises e' \<Rightarrow> e' = e
       | Returns r \<Rightarrow> rate_limit_wait E r n = Inr None \<and> raise_for_status r = Inl e))"

definition st0 :: st where
  "st0 = \<lparr>calls = 0, ticks = 0, trace = []\<rparr>"

text \<open>
  A server that cannot be reached, a clock whose first reading is 2020-12-31T00:00:00
  and that advances by a microsecond at each reading, and a parser that knows the
  timestamp 2020-01-01T00:00:00Z (both counted from 1970-01-01).
\<close>

definition sample_env :: env where
  "sample_env =
     \<lparr> http_get = (\<lambda>url n. Raises (RequestException ''unreachable'')),
       time_time = (\<lambda>n. 1700000000),
       py_int = (\<lambda>t. if t = ''0'' then Some 0
                      else if t = ''1700000060'' then Some 1700000060
                      else if t = ''1000'' then Some 1000 else None),
       strptime = (\<lambda>v. if v = JStr ''2020-01-01T00:00:00Z'' then Inr 1577836800000000
                        else Inl ValueError),
       utcnow = (\<lambda>n. 1609372800000000 + int n),
       can_open = (\<lambda>p. True) \<rparr>"

text \<open>
  The rate-limit answer as the specification words it: status forbidden and a
  remaining quota of zero.
\<close>

definition rate_limit_answer :: "env \<Rightarrow> string \<Rightarrow> nat \<Rightarrow> bool" where
  "rate_limit_answer E url n =
     (case http_get E url n of
        Raises e \<Rightarrow> False
      | Returns r \<Rightarrow>
          status_code r = 403
          \<and> (case headers r ''X-RateLimit-Remaining'' of
                None \<Rightarrow> False
              | Some v \<Rightarrow> py_int E v = Some 0))"

text \<open>
  A rate-limit answer that also carries a reset time, an integer for which the wait
  \<open>t\<close> (reset time minus clock reading plus one) is a length \<open>time.sleep\<close>
  accepts.
\<close>

definition rate_limited :: "env \<Rightarrow> string \<Rightarrow> nat \<Rightarrow> int \<Rightarrow> bool" where
  "rate_limited E url n t =
     (rate_limit_answer E url n \<and> 0 \<le> t \<and> t \<le> SLEEP_MAX \<and>
      (case http_get E url n of
         Raises e \<Rightarrow> False
       | Returns r \<Rightarrow>
           (case headers r ''X-RateLimit-Reset'' of
              None \<Rightarrow> False
            | Some v \<Rightarrow> py_int E v = Some (time_time E n + t - 1))))"

definition ok_response :: "repo_info list \<Rightarrow> response" where
  "ok_response items = \<lparr>status_code = 200, headers = Map.empty, json_items = Inr items\<rparr>"

definition rate_limit_response :: "string \<Rightarrow> response" where
  "rate_limit_response reset =
     \<lparr>status_code = 403,
      headers = [''X-RateLimit-Remaining'' \<mapsto> ''0'', ''X-RateLimit-Reset'' \<mapsto> reset],
      json_items = Inl (KeyError ''items'')\<rparr>"

definition unreachable :: get_result where
  "unreachable = Raises (RequestException ''unreachable'')"

text \<open>The sample environment with a server that answers the \<open>n\<close>-th request by \<open>server n\<close>.\<close>

definition env_of :: "(nat \<Rightarrow> get_result) \<Rightarrow> env" where
  "env_of server = sample_env\<lparr>http_get := (\<lambda>url. server)\<rparr>"

definition sample_page :: "repo_info list" where
  "sample_page = map (\<lambda>i. Some [(''id'', JInt (int i))]) [0..<100]"

definition sample_repo :: "string \<Rightarrow> int \<Rightarrow> dict" where
  "sample_repo full_name stars =
     [(''full_name'', JStr full_name),
      (''html_url'', JStr (''https://github.com/'' @ full_name)),
      (''stargazers_count'', JInt stars),
      (''open_issues_count'', JInt 3),
      (''pushed_at'', JStr ''2020-01-01T00:00:00Z''),
      (''created_at'', JStr ''2019-01-01T00:00:00Z'')]"



section \<open>The classifiers: thresholds and missing data\<close>

lemma map_of_Some_nonempty: "map_of d k = Some v \<Longrightarrow> d \<noteq> []"
  by auto

text \<open>
  Claim C1. For a record whose \<open>pushed_at\<close> entry parses to the time \<open>last_push\<close>,
  \<open>is_repo_outdated\<close> returns true exactly when the clock reading minus
  \<open>last_push\<close> is strictly more than 365 days (here in microseconds); a gap of
  exactly 365 days or less gives false. The call reads the clock once.
\<close>

theorem is_repo_outdated_threshold:
  assumes "map_of d ''pushed_at'' = Some v" and "strptime E v = Inr last_push"
  shows "is_repo_outdated E (Some d) s =
           (Inr (utcnow E (ticks s) - last_push > 365 * 86400 * 1000000),
            s\<lparr>ticks := ticks s + 1\<rparr>)
         \<and> (utcnow E (ticks s) - last_push \<le> 365 * 86400 * 1000000
              \<longrightarrow> fst (is_repo_outdated E (Some d) s) = Inr False)"
proof -
  from assms(1) have "d \<noteq> []" by (rule map_of_Some_nonempty)
  with assms show ?thesis
    by (simp add: is_repo_outdated_def py_not_def py_in_def subscript_def
        datetime_utcnow_def timedelta_days_def OUTDATED_THRESHOLD_DAYS_def)
qed

text \<open>
  At the sample clock the first reading is exactly 365 days after the push (not
  outdated) and the second one a microsecond later (outdated).
\<close>

theorem is_repo_outdated_threshold_witness:
  "is_repo_outdated sample_env (Some [(''pushed_at'', JStr ''2020-01-01T00:00:00Z'')]) st0
     = (Inr False, st0\<lparr>ticks := 1\<rparr>)
   \<and> is_repo_outdated sample_env (Some [(''pushed_at'', JStr ''2020-01-01T00:00:00Z'')])
       (st0\<lparr>ticks := 1\<rparr>) = (Inr True, st0\<lparr>ticks := 2\<rparr>)"
proof -
  have h1: "map_of [(''pushed_at'', JStr ''2020-01-01T00:00:00Z'')] ''pushed_at''
              = Some (JStr ''2020-01-01T00:00:00Z'')"
    by simp
  have h2: "strptime sample_env (JStr ''2020-01-01T00:00:00Z'') = Inr 1577836800000000"
    by (simp add: sample_env_def)
  show ?thesis
    using is_repo_outdated_threshold [OF h1 h2, of st0]
      is_repo_outdated_threshold [OF h1 h2, of "st0\<lparr>ticks := 1\<rparr>"]
    by (simp add: sample_env_def st0_def)
qed

text \<open>
  Claim C2. For a record whose \<open>pushed_at\<close> entry parses to \<open>last_push\<close> and whose
  open-issue count is the integer \<open>n\<close> (0 when the entry is missing, the default of
  the lookup), \<open>is_repo_broken\<close> returns true exactly when \<open>n\<close> is strictly more
  than 10 and the clock reading minus \<open>last_push\<close> is strictly more than 180 days; so
  with at most 10 open issues, or a push within 180 days, it returns false.
\<close>

theorem is_repo_broken_threshold:
  assumes "map_of d ''pushed_at'' = Some v" and "strptime E v = Inr last_push"
    and "map_of d ''open_issues_count'' = Some (JInt n)
         \<or> (map_of d ''open_issues_count'' = None \<and> n = 0)"
  shows "is_repo_broken E (Some d) s =
           (Inr (n > 10 \<and> utcnow E (ticks s) - last_push > 180 * 86400 * 1000000),
            s\<lparr>ticks := ticks s + 1\<rparr>)
         \<and> (n \<le> 10 \<or> utcnow E (ticks s) - last_push \<le> 180 * 86400 * 1000000
              \<longrightarrow> fst (is_repo_broken E (Some d) s) = Inr False)"
proof -
  from assms(1) have "d \<noteq> []" by (rule map_of_Some_nonempty)
  moreover from assms(3)
  have "py_gt (dict_get (Some d) ''open_issues_count'' (JInt 0)) BROKEN_ISSUES_THRESHOLD
          = Inr (n > 10)"
    by (auto simp add: py_gt_def dict_get_def BROKEN_ISSUES_THRESHOLD_def)
  ultimately show ?thesis
    using assms(1,2)
    by (auto simp add: is_repo_broken_def py_not_def py_in_def subscript_def
        datetime_utcnow_def timedelta_days_def BROKEN_THRESHOLD_DAYS_def)
qed

text \<open>
  Eleven open issues and a push 365 days ago: broken. Ten open issues, or no count at
  all, and the same push: not broken.
\<close>

theorem is_repo_broken_threshold_witness:
  "is_repo_broken sample_env
     (Some [(''pushed_at'', JStr ''2020-01-01T00:00:00Z''), (''open_issues_count'', JInt 11)])
     st0 = (Inr True, st0\<lparr>ticks := 1\<rparr>)
   \<and> is_repo_broken sample_env
     (Some [(''pushed_at'', JStr ''2020-01-01T00:00:00Z''), (''open_issues_count'', JInt 10)])
     st0 = (Inr False, st0\<lparr>ticks := 1\<rparr>)
   \<and> is_repo_broken sample_env
     (Some [(''pushed_at'', JStr ''2020-01-01T00:00:00Z'')])
     st0 = (Inr False, st0\<lparr>ticks := 1\<rparr>)"
proof -
  have p: "strptime sample_env (JStr ''2020-01-01T00:00:00Z'') = Inr 1577836800000000"
    by (simp add: sample_env_def)
  have a1: "map_of [(''pushed_at'', JStr ''2020-01-01T00:00:00Z''),
                    (''open_issues_count'', JInt 11)] ''pushed_at''
              = Some (JStr ''2020-01-01T00:00:00Z'')"
    by simp
  have a2: "map_of [(''pushed_at'', JStr ''2020-01-01T00:00:00Z''),
                    (''open_issues_count'', JInt 11)] ''open_issues_count'' = Some (JInt 11)
            \<or> (map_of [(''pushed_at'', JStr ''2020-01-01T00:00:00Z''),
                    (''open_issues_count'', JInt 11)] ''open_issues_count'' = None
                \<and> (11::int) = 0)"
    by simp
  have b1: "map_of [(''pushed_at'', JStr ''2020-01-01T00:00:00Z''),
                    (''open_issues_count'', JInt 10)] ''pushed_at''
              = Some (JStr ''2020-01-01T00:00:00Z'')"
    by simp
  have b2: "map_of [(''pushed_at'', JStr ''2020-01-01T00:00:00Z''),
                    (''open_issues_count'', JInt 10)] ''open_issues_count'' = Some (JInt 10)
            \<or> (map_of [(''pushed_at'', JStr ''2020-01-01T00:00:00Z''),
                    (''open_issues_count'', JInt 10)] ''open_issues_count'' = None
                \<and> (10::int) = 0)"
    by simp
  have c1: "map_of [(''pushed_at'', JStr ''2020-01-01T00:00:00Z'')] ''pushed_at''
              = Some (JStr ''2020-01-01T00:00:00Z'')"
    by simp
  have c2: "map_of [(''pushed_at'', JStr ''2020-01-01T00:00:00Z'')] ''open_issues_count''
              = Some (JInt 0)
            \<or> (map_of [(''pushed_at'', JStr ''2020-01-01T00:00:00Z'')] ''open_issues_count''
                  = None \<and> (0::int) = 0)"
    by simp
  show ?thesis
    using is_repo_broken_threshold [OF a1 p a2, of st0]
      is_repo_broken_threshold [OF b1 p b2, of st0]
      is_repo_broken_threshold [OF c1 p c2, of st0]
    by (simp add: sample_env_def st0_def)
qed

text \<open>
  Claim C7. On metadata that is absent (\<open>None\<close>), empty, or without a \<open>pushed_at\<close>
  entry, both classifiers return false: no exception, no reading of the clock. The
  empty record is the case \<open>d = []\<close>.
\<close>

theorem classifiers_without_pushed_at:
  "is_repo_outdated E None s = (Inr False, s)
   \<and> is_repo_broken E None s = (Inr False, s)
   \<and> (map_of d ''pushed_at'' = None \<longrightarrow>
        is_repo_outdated E (Some d) s = (Inr False, s)
        \<and> is_repo_broken E (Some d) s = (Inr False, s))"
  by (simp add: is_repo_outdated_def is_repo_broken_def py_not_def py_in_def)

theorem classifiers_without_pushed_at_witness:
  "map_of [(''full_name'', JStr ''octocat/hello''), (''open_issues_count'', JInt 50)]
     ''pushed_at'' = None
   \<and> is_repo_outdated sample_env
       (Some [(''full_name'', JStr ''octocat/hello''), (''open_issues_count'', JInt 50)]) st0
       = (Inr False, st0)
   \<and> is_repo_broken sample_env
       (Some [(''full_name'', JStr ''octocat/hello''), (''open_issues_count'', JInt 50)]) st0
       = (Inr False, st0)
   \<and> is_repo_outdated sample_env (Some []) st0 = (Inr False, st0)
   \<and> is_repo_broken sample_env (Some []) st0 = (Inr False, st0)"
proof -
  have h: "map_of [(''full_name'', JStr ''octocat/hello''), (''open_issues_count'', JInt 50)]
             ''pushed_at'' = None"
    by simp
  have e: "map_of ([] :: dict) ''pushed_at'' = None"
    by simp
  show ?thesis
    using classifiers_without_pushed_at
        [of sample_env st0
            "[(''full_name'', JStr ''octocat/hello''), (''open_issues_count'', JInt 50)]"]
      classifiers_without_pushed_at [of sample_env st0 "[]"] h e
    by blast
qed

section \<open>The request wrapper: retries and rate limits\<close>

text \<open>The back-off of the handler is at most 4 seconds, a length \<open>time.sleep\<close> accepts.\<close>

lemma handler_sleep:
  assumes "retry_count < MAX_RETRIES"
  shows "time_sleep (2 ^ retry_count) s = Inr (s\<lparr>trace := trace s @ [Sleep (2 ^ retry_count)]\<rparr>)"
proof -
  from assms have "retry_count \<le> 2" by (simp add: MAX_RETRIES_def)
  then have "(2::int) ^ retry_count \<le> 2 ^ 2" by (intro power_increasing) simp_all
  then show ?thesis by (simp add: time_sleep_def SLEEP_MAX_def)
qed

lemma outside_call: "\<not> RECURSION_LIMIT \<le> 0"
  by (simp add: RECURSION_LIMIT_def)

lemma make_request_at_returns:
  assumes "\<not> RECURSION_LIMIT \<le> depth"
    and "http_get E url (calls s) = Returns r"
    and "rate_limit_wait E r (calls s) = Inr None"
    and "raise_for_status r = Inr ()"
  shows "make_request_at E url retry_count depth s =
           Some (Inr r, s\<lparr>calls := calls s + 1, trace := trace s @ [Get url]\<rparr>)"
  using assms by (subst make_request_at.simps) simp

lemma make_request_returns:
  assumes "http_get E url (calls s) = Returns r"
    and "rate_limit_wait E r (calls s) = Inr None"
    and "raise_for_status r = Inr ()"
  shows "make_request E url retry_count s =
           Some (Inr r, s\<lparr>calls := calls s + 1, trace := trace s @ [Get url]\<rparr>)"
  unfolding make_request_def using outside_call assms by (rule make_request_at_returns)

lemma make_request_ok:
  assumes "http_get E url (calls s) = Returns r" and "status_code r = 200"
  shows "make_request E url retry_count s =
           Some (Inr r, s\<lparr>calls := calls s + 1, trace := trace s @ [Get url]\<rparr>)"
  using assms
  by (intro make_request_returns) (simp_all add: rate_limit_wait_def raise_for_status_def)

text \<open>The \<open>try\<close> block of an attempt that fails, whatever the recursive call would do.\<close>

lemma try_fails:
  assumes "request_fails E url (calls s) e"
  shows "(case http_get E url (calls s) of
           Raises e \<Rightarrow> Some (Inl e, s1)
         | Returns r \<Rightarrow>
             (case rate_limit_wait E r (calls s) of
                Inl e \<Rightarrow> Some (Inl e, s1)
              | Inr (Some sleep_time) \<Rightarrow> X sleep_time
              | Inr None \<Rightarrow>
                  (case raise_for_status r of
                     Inl e \<Rightarrow> Some (Inl e, s1)
                   | Inr u \<Rightarrow> Some (Inr r, s1)))) = Some (Inl e, s1)"
  using assms by (auto simp add: request_fails_def split: get_result.splits)

lemma make_request_at_retries:
  assumes "request_fails E url (calls s) e" and "retry_count < MAX_RETRIES"
    and "\<not> RECURSION_LIMIT \<le> depth"
  shows "make_request_at E url retry_count depth s =
           make_request_at E url (retry_count + 1) (depth + 1)
             (s\<lparr>calls := calls s + 1,
                trace := trace s @ [Get url, Sleep (2 ^ retry_count)]\<rparr>)"
proof -
  from assms(1) have "is_request_exception e" by (simp add: request_fails_def)
  with assms(2,3) show ?thesis
    by (subst make_request_at.simps)
      (simp add: try_fails [OF assms(1)] handler_sleep [OF assms(2)])
qed

lemma make_request_at_gives_up:
  assumes "request_fails E url (calls s) e" and "\<not> retry_count < MAX_RETRIES"
    and "\<not> RECURSION_LIMIT \<le> depth"
  shows "make_request_at E url retry_count depth s =
           Some (Inl e, s\<lparr>calls := calls s + 1, trace := trace s @ [Get url]\<rparr>)"
  using assms(2,3) by (subst make_request_at.simps) (simp add: try_fails [OF assms(1)])

text \<open>Four failing attempts in a row, from the retry counter 0.\<close>

lemma make_request_at_four_failures:
  assumes f0: "request_fails E url (calls s) e0"
    and f1: "request_fails E url (calls s + 1) e1"
    and f2: "request_fails E url (calls s + 2) e2"
    and f3: "request_fails E url (calls s + 3) e3"
    and room: "depth + 3 < RECURSION_LIMIT"
  shows "make_request_at E url 0 depth s =
           Some (Inl e3,
                 s\<lparr>calls := calls s + 4,
                   trace := trace s @ [Get url, Sleep 1, Get url, Sleep 2,
                                       Get url, Sleep 4, Get url]\<rparr>)"
proof -
  let ?s1 = "s\<lparr>calls := calls s + 1, trace := trace s @ [Get url, Sleep (2 ^ 0)]\<rparr>"
  let ?s2 = "?s1\<lparr>calls := calls ?s1 + 1, trace := trace ?s1 @ [Get url, Sleep (2 ^ 1)]\<rparr>"
  let ?s3 = "?s2\<lparr>calls := calls ?s2 + 1, trace := trace ?s2 @ [Get url, Sleep (2 ^ 2)]\<rparr>"
  from room have d0: "\<not> RECURSION_LIMIT \<le> depth" and d1: "\<not> RECURSION_LIMIT \<le> depth + 1"
    and d2: "\<not> RECURSION_LIMIT \<le> depth + 2" and d3: "\<not> RECURSION_LIMIT \<le> depth + 3"
    by simp_all
  have "make_request_at E url 0 depth s = make_request_at E url 1 (depth + 1) ?s1"
    using make_request_at_retries [of E url s e0 0 depth] f0 d0 by (simp add: MAX_RETRIES_def)
  also have "\<dots> = make_request_at E url 2 (depth + 2) ?s2"
    using make_request_at_retries [of E url ?s1 e1 1 "depth + 1"] f1 d1
    by (simp add: MAX_RETRIES_def numeral_3_eq_3 numeral_2_eq_2)
  also have "\<dots> = make_request_at E url 3 (depth + 3) ?s3"
    using make_request_at_retries [of E url ?s2 e2 2 "depth + 2"] f2 d2
    by (simp add: MAX_RETRIES_def numeral_3_eq_3 numeral_2_eq_2)
  also have "\<dots> = Some (Inl e3, ?s3\<lparr>calls := calls ?s3 + 1, trace := trace ?s3 @ [Get url]\<rparr>)"
    using make_request_at_gives_up [of E url ?s3 e3 3 "depth + 3"] f3 d3
    by (simp add: MAX_RETRIES_def numeral_3_eq_3 numeral_2_eq_2)
  finally show ?thesis by simp
qed

lemma make_request_four_failures:
  assumes f0: "request_fails E url (calls s) e0"
    and f1: "request_fails E url (calls s + 1) e1"
    and f2: "request_fails E url (calls s + 2) e2"
    and f3: "request_fails E url (calls s + 3) e3"
  shows "make_request E url 0 s =
           Some (Inl e3,
                 s\<lparr>calls := calls s + 4,
                   trace := trace s @ [Get url, Sleep 1, Get url, Sleep 2,
                                       Get url, Sleep 4, Get url]\<rparr>)"
proof -
  have "0 + 3 < RECURSION_LIMIT" by (simp add: RECURSION_LIMIT_def)
  with assms show ?thesis
    unfolding make_request_def by (rule make_request_at_four_failures)
qed

text \<open>
  Claim C5. When each of the attempts raises an exception of class
  \<open>RequestException\<close>, \<open>make_request\<close> (called with its default retry counter 0)
  issues the request four times, sleeps \<open>2 ^ k\<close> seconds before retry number
  \<open>k + 1\<close> for \<open>k = 0, 1, 2\<close>, and then raises the exception of the fourth
  attempt.
\<close>

theorem make_request_exhausts_retries:
  assumes "\<forall>i<4. request_fails E url (calls s + i) (e i)"
  shows "make_request E url 0 s =
           Some (Inl (e 3),
                 s\<lparr>calls := calls s + 4,
                   trace := trace s @ [Get url, Sleep (2 ^ 0), Get url, Sleep (2 ^ 1),
                                       Get url, Sleep (2 ^ 2), Get url]\<rparr>)"
proof -
  have f0: "request_fails E url (calls s) (e 0)"
    using assms [rule_format, of 0] by simp
  have f1: "request_fails E url (calls s + 1) (e 1)"
    using assms [rule_format, of 1] by simp
  have f2: "request_fails E url (calls s + 2) (e 2)"
    using assms [rule_format, of 2] by simp
  have f3: "request_fails E url (calls s + 3) (e 3)"
    using assms [rule_format, of 3] by simp
  show ?thesis
    using make_request_four_failures [OF f0 f1 f2 f3] by simp
qed

theorem make_request_exhausts_retries_witness:
  "make_request sample_env ''https://api.github.com/rate_limit'' 0 st0 =
     Some (Inl (RequestException ''unreachable''),
           \<lparr>calls = 4, ticks = 0,
            trace = [Get ''https://api.github.com/rate_limit'', Sleep 1,
                     Get ''https://api.github.com/rate_limit'', Sleep 2,
                     Get ''https://api.github.com/rate_limit'', Sleep 4,
                     Get ''https://api.github.com/rate_limit'']\<rparr>)"
proof -
  have h: "\<forall>i<4. request_fails sample_env ''https://api.github.com/rate_limit''
             (calls st0 + i) ((\<lambda>i. RequestException ''unreachable'') i)"
    by (simp add: request_fails_def sample_env_def)
  show ?thesis
    using make_request_exhausts_retries [OF h] by (simp add: st0_def)
qed

text \<open>Every call of the wrapper returns or raises: the recursion is bounded by its depth.\<close>

lemma bind_returns:
  assumes "m \<noteq> None" and "\<And>x. f x \<noteq> None"
  shows "Option.bind m f \<noteq> None"
  using assms by (cases m) simp_all

lemma make_request_at_always_returns:
  "make_request_at E url retry_count depth s \<noteq> None"
proof (induction "RECURSION_LIMIT - depth" arbitrary: retry_count depth s)
  case 0
  then have "RECURSION_LIMIT \<le> depth" by simp
  then show ?case by (subst make_request_at.simps) simp
next
  case (Suc k)
  from Suc(2) have room: "\<not> RECURSION_LIMIT \<le> depth" by simp
  from Suc(2) have k: "k = RECURSION_LIMIT - (depth + 1)" by simp
  note inner = Suc(1) [OF k]
  show ?case
    apply (subst make_request_at.simps)
    apply (simp only: room if_False Let_def)
    apply (rule bind_returns)
    subgoal using inner by (auto split: get_result.split sum.split option.split)
    subgoal using inner by (auto split: prod.split sum.split)
    done
qed

lemma make_request_always_returns: "make_request E url retry_count s \<noteq> None"
  unfolding make_request_def by (rule make_request_at_always_returns)

lemma rate_limited_wait:
  assumes "rate_limited E url n t"
  shows "\<exists>r. http_get E url n = Returns r \<and> rate_limit_wait E r n = Inr (Some t)"
proof -
  from assms obtain r where r: "http_get E url n = Returns r"
    by (cases "http_get E url n") (simp_all add: rate_limited_def)
  with assms obtain v w where "status_code r = 403"
    and "headers r ''X-RateLimit-Remaining'' = Some v" and "py_int E v = Some 0"
    and "headers r ''X-RateLimit-Reset'' = Some w"
    and "py_int E w = Some (time_time E n + t - 1)"
    by (auto simp add: rate_limited_def rate_limit_answer_def split: option.splits)
  then have "rate_limit_wait E r n = Inr (Some t)"
    by (simp add: rate_limit_wait_def)
  with r show ?thesis by blast
qed

text \<open>
  After a rate-limit answer with a wait that \<open>time.sleep\<close> accepts, the program sleeps
  and calls itself with the retry counter 0, inside \<open>try\<close>: what that call returns or
  raises passes through the handler of this one.
\<close>

lemma make_request_at_waits:
  assumes "rate_limited E url (calls s) t" and "\<not> RECURSION_LIMIT \<le> depth"
  shows "make_request_at E url retry_count depth s =
           Option.bind
             (make_request_at E url 0 (depth + 1)
                (s\<lparr>calls := calls s + 1, trace := trace s @ [Get url, Sleep t]\<rparr>))
             (\<lambda>(res, s2).
                case res of
                  Inr r \<Rightarrow> Some (Inr r, s2)
                | Inl e \<Rightarrow>
                    if is_request_exception e \<and> retry_count < MAX_RETRIES then
                      (case time_sleep (2 ^ retry_count) s2 of
                         Inl e' \<Rightarrow> Some (Inl e', s2)
                       | Inr s2' \<Rightarrow> make_request_at E url (retry_count + 1) (depth + 1) s2')
                    else Some (Inl e, s2))"
proof -
  from assms(1) obtain r where "http_get E url (calls s) = Returns r"
    and "rate_limit_wait E r (calls s) = Inr (Some t)"
    using rate_limited_wait by blast
  moreover from assms(1) have "0 \<le> t" and "t \<le> SLEEP_MAX" by (simp_all add: rate_limited_def)
  ultimately show ?thesis
    using assms(2) by (subst make_request_at.simps) (simp add: time_sleep_def)
qed

text \<open>A wait, then a good answer: the same request is issued again and its answer returned.\<close>

lemma rate_limit_then_ok:
  assumes "rate_limited E url (calls s) t"
    and "http_get E url (calls s + 1) = Returns r" and "status_code r = 200"
  shows "make_request E url retry_count s =
           Some (Inr r, s\<lparr>calls := calls s + 2,
                           trace := trace s @ [Get url, Sleep t, Get url]\<rparr>)"
proof -
  let ?s1 = "s\<lparr>calls := calls s + 1, trace := trace s @ [Get url, Sleep t]\<rparr>"
  have one: "\<not> RECURSION_LIMIT \<le> 0 + 1" by (simp add: RECURSION_LIMIT_def)
  from assms(2,3) have "make_request_at E url 0 (0 + 1) ?s1 =
      Some (Inr r, ?s1\<lparr>calls := calls ?s1 + 1, trace := trace ?s1 @ [Get url]\<rparr>)"
    by (intro make_request_at_returns [OF one])
      (simp_all add: rate_limit_wait_def raise_for_status_def)
  then show ?thesis
    by (simp add: make_request_def make_request_at_waits [OF assms(1) outside_call])
qed

text \<open>
  A wait at the last permitted retry: the inner call starts from the retry counter 0 and
  tries four times before the exception passes through.
\<close>

lemma rate_limit_resets_counter:
  assumes "rate_limited E url (calls s) t"
    and all: "\<forall>i<4. request_fails E url (calls s + 1 + i) (e i)"
  shows "make_request E url MAX_RETRIES s =
           Some (Inl (e 3),
                 s\<lparr>calls := calls s + 5,
                   trace := trace s @ [Get url, Sleep t, Get url, Sleep 1, Get url, Sleep 2,
                                       Get url, Sleep 4, Get url]\<rparr>)"
proof -
  let ?s1 = "s\<lparr>calls := calls s + 1, trace := trace s @ [Get url, Sleep t]\<rparr>"
  have f0: "request_fails E url (calls ?s1) (e 0)"
    using all [rule_format, of 0] by simp
  have f1: "request_fails E url (calls ?s1 + 1) (e 1)"
    using all [rule_format, of 1] by simp
  have f2: "request_fails E url (calls ?s1 + 2) (e 2)"
    using all [rule_format, of 2] by simp
  have f3: "request_fails E url (calls ?s1 + 3) (e 3)"
    using all [rule_format, of 3] by simp
  have room: "0 + 1 + 3 < RECURSION_LIMIT" by (simp add: RECURSION_LIMIT_def)
  note inner = make_request_at_four_failures [OF f0 f1 f2 f3 room]
  from f3 have "is_request_exception (e 3)" by (simp add: request_fails_def)
  with inner show ?thesis
    by (simp add: make_request_def make_request_at_waits [OF assms(1) outside_call])
qed

text \<open>
  Waits have no ceiling of the program's own. When every answer is a rate-limit answer
  with an acceptable wait, each call issues one request, sleeps, and calls itself, until
  the depth of the recursion is used up: the run ends in \<open>RecursionError\<close>.
\<close>

lemma rate_limit_ends_in_recursion_error:
  assumes "\<forall>n. \<exists>t. rate_limited E url n t"
  shows "\<exists>s'. make_request_at E url retry_count depth s = Some (Inl RecursionError, s')
              \<and> calls s' = calls s + (RECURSION_LIMIT - depth)"
proof (induction "RECURSION_LIMIT - depth" arbitrary: retry_count depth s)
  case 0
  then have "RECURSION_LIMIT \<le> depth" by simp
  then show ?case by (subst make_request_at.simps) simp
next
  case (Suc k)
  from Suc(2) have room: "\<not> RECURSION_LIMIT \<le> depth" by simp
  from Suc(2) have k: "k = RECURSION_LIMIT - (depth + 1)" by simp
  from assms obtain t where lim: "rate_limited E url (calls s) t" by blast
  let ?s1 = "s\<lparr>calls := calls s + 1, trace := trace s @ [Get url, Sleep t]\<rparr>"
  from Suc(1) [OF k, of 0 ?s1] obtain s' where
    inner: "make_request_at E url 0 (depth + 1) ?s1 = Some (Inl RecursionError, s')"
    and count: "calls s' = calls ?s1 + (RECURSION_LIMIT - (depth + 1))"
    by blast
  from inner have "make_request_at E url retry_count depth s = Some (Inl RecursionError, s')"
    by (simp add: make_request_at_waits [OF lim room])
  moreover from count room have "calls s' = calls s + (RECURSION_LIMIT - depth)" by simp
  ultimately show ?case by blast
qed

text \<open>
  Claim C6. A rate-limit answer (status forbidden, remaining quota zero) is to be
  waited out and the same request issued again, with no ceiling on such waits. The
  code does not do so when the reset time lies behind the clock. Here the server gives
  that answer at every attempt with the reset time 1000, the clock reads 1700000000, the
  computed wait \<open>1000 - 1700000000 + 1\<close> is negative, \<open>time.sleep\<close> raises
  \<open>ValueError\<close>, which the handler does not take, and \<open>make_request\<close> ends after
  its first request without sleeping.
\<close>

theorem rate_limit_negative_wait_raises:
  "(\<forall>n. rate_limit_answer (env_of (\<lambda>n. Returns (rate_limit_response ''1000'')))
          ''https://api.github.com/rate_limit'' n)
   \<and> make_request (env_of (\<lambda>n. Returns (rate_limit_response ''1000'')))
       ''https://api.github.com/rate_limit'' 0 st0
       = Some (Inl ValueError,
               \<lparr>calls = 1, ticks = 0, trace = [Get ''https://api.github.com/rate_limit'']\<rparr>)"
proof
  show "\<forall>n. rate_limit_answer (env_of (\<lambda>n. Returns (rate_limit_response ''1000'')))
          ''https://api.github.com/rate_limit'' n"
    by (simp add: rate_limit_answer_def env_of_def sample_env_def rate_limit_response_def)
  show "make_request (env_of (\<lambda>n. Returns (rate_limit_response ''1000'')))
       ''https://api.github.com/rate_limit'' 0 st0
       = Some (Inl ValueError,
               \<lparr>calls = 1, ticks = 0, trace = [Get ''https://api.github.com/rate_limit'']\<rparr>)"
    unfolding make_request_def
    by (subst make_request_at.simps)
      (simp add: env_of_def sample_env_def rate_limit_response_def rate_limit_wait_def
        time_sleep_def RECURSION_LIMIT_def st0_def)
qed

text \<open>
  With the reset time 60 seconds ahead of the clock the same server is waited for, 61
  seconds at a time, a thousand times over, and the run ends in \<open>RecursionError\<close>.
\<close>

lemma rate_limit_recursion_error_example:
  "\<exists>s'. make_request (env_of (\<lambda>n. Returns (rate_limit_response ''1700000060'')))
           ''https://api.github.com/rate_limit'' 0 st0 = Some (Inl RecursionError, s')
         \<and> calls s' = 1000"
proof -
  have "\<forall>n. \<exists>t. rate_limited (env_of (\<lambda>n. Returns (rate_limit_response ''1700000060'')))
                  ''https://api.github.com/rate_limit'' n t"
    by (intro allI exI [of _ 61])
      (simp add: rate_limited_def rate_limit_answer_def env_of_def sample_env_def
        rate_limit_response_def SLEEP_MAX_def)
  from rate_limit_ends_in_recursion_error [OF this, of 0 0 st0]
  show ?thesis by (simp add: make_request_def RECURSION_LIMIT_def st0_def)
qed

section \<open>Search: pagination, the maximum and request errors\<close>

lemma str_nat_1: "str_nat (Suc 0) = ''1''"
  by (simp add: str_nat.simps digit_char_def)

lemma str_nat_2: "str_nat 2 = ''2''"
  by (simp add: str_nat.simps digit_char_def)

lemma str_nat_Suc_1: "str_nat (Suc (Suc 0)) = ''2''"
  using str_nat_2 by (simp add: numeral_2_eq_2)

lemma length_slice_to: "0 \<le> n \<Longrightarrow> int (length (slice_to xs n)) \<le> n"
  by (simp add: slice_to_def)

lemma slice_to_all: "int (length xs) \<le> n \<Longrightarrow> slice_to xs n = xs"
  by (simp add: slice_to_def)

text \<open>The four ways through one round of the loop.\<close>

lemma search_loop_exit:
  assumes "\<not> int (length all_repos) < max_repos"
  shows "search_loop E url max_repos all_repos page s
           = Some (Inr (slice_to all_repos max_repos), s)"
  using assms by (subst search_loop.simps) simp

lemma search_loop_diverges:
  assumes "int (length all_repos) < max_repos"
    and "make_request E (url @ ''&page='' @ str_nat page) 0 s = None"
  shows "search_loop E url max_repos all_repos page s = None"
  using assms by (subst search_loop.simps) simp

lemma search_loop_error:
  assumes "int (length all_repos) < max_repos"
    and "make_request E (url @ ''&page='' @ str_nat page) 0 s = Some (res, s1)"
    and "(case res of Inl e \<Rightarrow> Inl e | Inr r \<Rightarrow> json_items r) = Inl e"
  shows "search_loop E url max_repos all_repos page s =
           (if is_request_exception e then Some (Inr (slice_to all_repos max_repos), s1)
            else Some (Inl e, s1))"
  using assms by (subst search_loop.simps) simp

lemma search_loop_page:
  assumes "int (length all_repos) < max_repos"
    and "make_request E (url @ ''&page='' @ str_nat page) 0 s = Some (res, s1)"
    and "(case res of Inl e \<Rightarrow> Inl e | Inr r \<Rightarrow> json_items r) = Inr repos"
  shows "search_loop E url max_repos all_repos page s =
           (if repos = [] then Some (Inr (slice_to all_repos max_repos), s1)
            else if int (length (all_repos @ repos)) \<ge> max_repos
              then Some (Inr (slice_to (all_repos @ repos) max_repos), s1)
            else search_loop E url max_repos (all_repos @ repos) (page + 1) s1)"
  using assms by (subst search_loop.simps) simp

text \<open>The length of what a round returns without going round again.\<close>

lemma length_at_exit:
  assumes "0 \<le> max_repos"
    and "search_loop E url max_repos all_repos page s = Some (Inr xs, s')"
    and "\<not> int (length all_repos) < max_repos"
  shows "int (length xs) \<le> max_repos"
  using assms length_slice_to [OF assms(1)] by (auto simp add: search_loop_exit)

lemma length_at_error:
  assumes "0 \<le> max_repos"
    and "search_loop E url max_repos all_repos page s = Some (Inr xs, s')"
    and more: "int (length all_repos) < max_repos"
    and mr: "make_request E (url @ ''&page='' @ str_nat page) 0 s = Some (res, s1)"
    and out: "(case res of Inl e \<Rightarrow> Inl e | Inr r \<Rightarrow> json_items r) = Inl e"
  shows "int (length xs) \<le> max_repos"
  using assms(2) length_slice_to [OF assms(1)]
  by (auto simp add: search_loop_error [OF more mr out] split: if_splits)

lemma length_at_last_page:
  assumes "0 \<le> max_repos"
    and "search_loop E url max_repos all_repos page s = Some (Inr xs, s')"
    and more: "int (length all_repos) < max_repos"
    and mr: "make_request E (url @ ''&page='' @ str_nat page) 0 s = Some (res, s1)"
    and out: "(case res of Inl e \<Rightarrow> Inl e | Inr r \<Rightarrow> json_items r) = Inr repos"
    and stop: "repos = [] \<or> int (length (all_repos @ repos)) \<ge> max_repos"
  shows "int (length xs) \<le> max_repos"
  using assms(2) stop length_slice_to [OF assms(1)]
  by (auto simp add: search_loop_page [OF more mr out] split: if_splits)

lemma search_loop_next:
  assumes more: "int (length all_repos) < max_repos"
    and mr: "make_request E (url @ ''&page='' @ str_nat page) 0 s = Some (res, s1)"
    and out: "(case res of Inl e \<Rightarrow> Inl e | Inr r \<Rightarrow> json_items r) = Inr repos"
    and go: "\<not> (repos = [] \<or> int (length (all_repos @ repos)) \<ge> max_repos)"
  shows "search_loop E url max_repos all_repos page s
           = search_loop E url max_repos (all_repos @ repos) (page + 1) s1"
  using go by (simp add: search_loop_page [OF more mr out])

lemma search_loop_length:
  assumes "0 \<le> max_repos"
    and "search_loop E url max_repos all_repos page s = Some (Inr xs, s')"
  shows "int (length xs) \<le> max_repos"
  using assms
proof (induction E url max_repos all_repos page s rule: search_loop.induct)
  case (1 E url max_repos all_repos page s)
  show ?case
  proof (cases "int (length all_repos) < max_repos")
    case False
    with "1.prems" show ?thesis by (rule length_at_exit)
  next
    case more: True
    show ?thesis
    proof (cases "make_request E (url @ ''&page='' @ str_nat page) 0 s")
      case None
      with more "1.prems"(2) show ?thesis by (simp add: search_loop_diverges)
    next
      case (Some p)
      obtain res s1 where p: "p = (res, s1)" by (cases p)
      from Some p
      have mr: "make_request E (url @ ''&page='' @ str_nat page) 0 s = Some (res, s1)"
        by simp
      show ?thesis
      proof (cases "case res of Inl e \<Rightarrow> Inl e | Inr r \<Rightarrow> json_items r")
        case (Inl e)
        from "1.prems" more mr Inl show ?thesis by (rule length_at_error)
      next
        case (Inr repos)
        show ?thesis
        proof (cases "repos = [] \<or> int (length (all_repos @ repos)) \<ge> max_repos")
          case True
          from "1.prems" more mr Inr True show ?thesis by (rule length_at_last_page)
        next
          case False
          from "1.prems"(2)
          have next_round: "search_loop E url max_repos (all_repos @ repos) (page + 1) s1
              = Some (Inr xs, s')"
            by (simp add: search_loop_next [OF more mr Inr False])
          from False have ne: "repos \<noteq> []"
            and lt: "\<not> max_repos \<le> int (length (all_repos @ repos))"
            by simp_all
          show ?thesis
            by (rule "1.IH" [OF more Some p [symmetric] Inr ne lt "1.prems"(1) next_round])
        qed
      qed
    qed
  qed
qed

text \<open>The loop ends whenever each request returns.\<close>

lemma search_loop_returns:
  assumes "\<forall>url retry_count s. make_request E url retry_count s \<noteq> None"
  shows "search_loop E url max_repos all_repos page s \<noteq> None"
  using assms
proof (induction E url max_repos all_repos page s rule: search_loop.induct)
  case (1 E url max_repos all_repos page s)
  show ?case
  proof (cases "int (length all_repos) < max_repos")
    case False
    then show ?thesis by (simp add: search_loop_exit)
  next
    case more: True
    from "1.prems" obtain p where
      Some: "make_request E (url @ ''&page='' @ str_nat page) 0 s = Some p"
      by fastforce
    obtain res s1 where p: "p = (res, s1)" by (cases p)
    from Some p
    have mr: "make_request E (url @ ''&page='' @ str_nat page) 0 s = Some (res, s1)"
      by simp
    show ?thesis
    proof (cases "case res of Inl e \<Rightarrow> Inl e | Inr r \<Rightarrow> json_items r")
      case (Inl e)
      show ?thesis by (simp add: search_loop_error [OF more mr Inl])
    next
      case (Inr repos)
      show ?thesis
      proof (cases "repos = [] \<or> int (length (all_repos @ repos)) \<ge> max_repos")
        case True
        then show ?thesis by (auto simp add: search_loop_page [OF more mr Inr])
      next
        case False
        from False have ne: "repos \<noteq> []"
          and lt: "\<not> max_repos \<le> int (length (all_repos @ repos))"
          by simp_all
        have "search_loop E url max_repos (all_repos @ repos) (page + 1) s1 \<noteq> None"
          by (rule "1.IH" [OF more Some p [symmetric] Inr ne lt "1.prems"])
        then show ?thesis by (simp add: search_loop_next [OF more mr Inr False])
      qed
    qed
  qed
qed

text \<open>
  Claim C10. With a maximum of 0 or less the loop condition fails at once:
  \<open>search_repos\<close> returns the empty list and leaves the state as it was, so no
  request is issued.
\<close>

theorem search_repos_nonpositive:
  assumes "max_repos \<le> 0"
  shows "search_repos E query sort_by order per_page max_repos s = Some (Inr [], s)"
  using assms by (simp add: search_repos_def search_loop_exit slice_to_def)

theorem search_repos_nonpositive_witness:
  "search_repos sample_env ''stars:>100'' ''stars'' ''desc'' 100 0 st0 = Some (Inr [], st0)
   \<and> search_repos sample_env ''stars:>100'' ''stars'' ''desc'' 100 (- 3) st0
       = Some (Inr [], st0)"
proof -
  have z: "(0::int) \<le> 0" by simp
  have m: "(- 3::int) \<le> 0" by simp
  show ?thesis
    using search_repos_nonpositive [OF z, of sample_env "''stars:>100''" "''stars''" "''desc''" 100 st0]
      search_repos_nonpositive [OF m, of sample_env "''stars:>100''" "''stars''" "''desc''" 100 st0]
    by simp
qed

text \<open>The first page, when the server answers the first request well.\<close>

lemma first_page:
  assumes "http_get E (url @ ''&page=1'') (calls s) = Returns r" and "status_code r = 200"
  shows "make_request E (url @ ''&page='' @ str_nat 1) 0 s =
           Some (Inr r, s\<lparr>calls := calls s + 1, trace := trace s @ [Get (url @ ''&page=1'')]\<rparr>)"
  using make_request_ok [of E "url @ ''&page=1''" s r 0] assms by (simp add: str_nat_1)

text \<open>
  Claim C3, as amended. Whatever \<open>search_repos\<close> returns is no longer than the
  requested maximum when that is not negative, and is empty when it is negative (first
  part); it does return whenever each call of the request wrapper does (second part);
  and with a maximum of 5 and a first page of 100 items it issues one request and
  returns the first 5 items of that page (third part).
\<close>

theorem search_repos_at_most_max:
  "(search_repos E query sort_by order per_page max_repos s = Some (Inr xs, s')
      \<longrightarrow> int (length xs) \<le> max max_repos 0)
   \<and> ((\<forall>url retry_count s. make_request E url retry_count s \<noteq> None)
      \<longrightarrow> search_repos E query sort_by order per_page max_repos s \<noteq> None)
   \<and> (http_get E (search_url query sort_by order per_page @ ''&page=1'') (calls s) = Returns r
        \<and> status_code r = 200 \<and> json_items r = Inr items \<and> length items = 100
      \<longrightarrow> search_repos E query sort_by order per_page 5 s =
            Some (Inr (take 5 items),
                  s\<lparr>calls := calls s + 1,
                    trace := trace s
                      @ [Get (search_url query sort_by order per_page @ ''&page=1'')]\<rparr>))"
proof (intro conjI impI)
  assume ret: "search_repos E query sort_by order per_page max_repos s = Some (Inr xs, s')"
  show "int (length xs) \<le> max max_repos 0"
  proof (cases "0 \<le> max_repos")
    case True
    with ret have "int (length xs) \<le> max_repos"
      unfolding search_repos_def by (intro search_loop_length)
    then show ?thesis by simp
  next
    case False
    with ret have "xs = []"
      by (simp add: search_repos_def search_loop_exit slice_to_def)
    then show ?thesis by simp
  qed
next
  assume "\<forall>url retry_count s. make_request E url retry_count s \<noteq> None"
  then show "search_repos E query sort_by order per_page max_repos s \<noteq> None"
    unfolding search_repos_def by (rule search_loop_returns)
next
  let ?url = "search_url query sort_by order per_page"
  assume a: "http_get E (?url @ ''&page=1'') (calls s) = Returns r
        \<and> status_code r = 200 \<and> json_items r = Inr items \<and> length items = 100"
  let ?s1 = "s\<lparr>calls := calls s + 1, trace := trace s @ [Get (?url @ ''&page=1'')]\<rparr>"
  from a have mr: "make_request E (?url @ ''&page='' @ str_nat 1) 0 s = Some (Inr r, ?s1)"
    by (intro first_page) simp_all
  have more: "int (length ([] :: repo_info list)) < 5" by simp
  from a have out: "(case Inr r of Inl e \<Rightarrow> Inl e | Inr r \<Rightarrow> json_items r) = Inr items"
    by simp
  from a have "items \<noteq> []" by auto
  with a search_loop_page [OF more mr out]
  show "search_repos E query sort_by order per_page 5 s = Some (Inr (take 5 items), ?s1)"
    by (simp add: search_repos_def slice_to_def)
qed

text \<open>
  A server whose every page has 100 items, asked for 5; and the unreachable server, on
  which every call of the wrapper returns.
\<close>

theorem search_repos_at_most_max_witness:
  "search_repos (env_of (\<lambda>n. Returns (ok_response sample_page)))
     ''stars:>100'' ''stars'' ''desc'' 100 5 st0
     = Some (Inr (take 5 sample_page),
             \<lparr>calls = 1, ticks = 0,
              trace = [Get (search_url ''stars:>100'' ''stars'' ''desc'' 100 @ ''&page=1'')]\<rparr>)
   \<and> int (length (take 5 sample_page)) \<le> max 5 0
   \<and> search_repos sample_env ''stars:>100'' ''stars'' ''desc'' 100 5 st0 \<noteq> None"
proof -
  let ?E = "env_of (\<lambda>n. Returns (ok_response sample_page))"
  let ?s1 = "\<lparr>calls = 1, ticks = 0,
              trace = [Get (search_url ''stars:>100'' ''stars'' ''desc'' 100 @ ''&page=1'')]\<rparr>"
  have h3: "http_get ?E (search_url ''stars:>100'' ''stars'' ''desc'' 100 @ ''&page=1'')
              (calls st0) = Returns (ok_response sample_page)
            \<and> status_code (ok_response sample_page) = 200
            \<and> json_items (ok_response sample_page) = Inr sample_page
            \<and> length sample_page = 100"
    by (simp add: env_of_def ok_response_def sample_page_def)
  have page: "search_repos ?E ''stars:>100'' ''stars'' ''desc'' 100 5 st0
                = Some (Inr (take 5 sample_page), ?s1)"
    using h3 search_repos_at_most_max
      [where E = ?E and query = "''stars:>100''" and sort_by = "''stars''"
         and order = "''desc''" and per_page = 100 and s = st0
         and r = "ok_response sample_page" and items = sample_page,
       THEN conjunct2, THEN conjunct2]
    by (simp add: st0_def)
  have bound: "int (length (take 5 sample_page)) \<le> max 5 0"
    using page search_repos_at_most_max
      [where E = ?E and query = "''stars:>100''" and sort_by = "''stars''"
         and order = "''desc''" and per_page = 100 and max_repos = 5 and s = st0
         and xs = "take 5 sample_page" and s' = ?s1, THEN conjunct1]
    by simp
  have h2: "\<forall>url retry_count s. make_request sample_env url retry_count s \<noteq> None"
    by (simp add: make_request_always_returns)
  have total: "search_repos sample_env ''stars:>100'' ''stars'' ''desc'' 100 5 st0 \<noteq> None"
    using h2 search_repos_at_most_max
      [where E = sample_env and query = "''stars:>100''" and sort_by = "''stars''"
         and order = "''desc''" and per_page = 100 and max_repos = 5 and s = st0,
       THEN conjunct2, THEN conjunct1]
    by blast
  from page bound total show ?thesis by blast
qed

text \<open>
  The claim as worded, for every maximum, fails at a negative one: the result is the
  empty list, whose length 0 is not at most \<open>- 1\<close>.
\<close>

theorem search_repos_negative_max_counterexample:
  "search_repos sample_env ''stars:>100'' ''stars'' ''desc'' 100 (- 1) st0 = Some (Inr [], st0)
   \<and> \<not> int (length ([] :: repo_info list)) \<le> - 1"
  by (simp add: search_repos_def search_loop_exit slice_to_def)

text \<open>Pages that arrive one after the other are collected in order.\<close>

lemma search_loop_collects:
  assumes "\<forall>i<length pages. \<exists>r.
             http_get E (url @ ''&page='' @ str_nat (page + i)) (calls s + i) = Returns r
             \<and> status_code r = 200 \<and> json_items r = Inr (pages ! i) \<and> pages ! i \<noteq> []"
    and "int (length (all_repos @ concat pages)) < max_repos"
  shows "\<exists>s'. search_loop E url max_repos all_repos page s
                 = search_loop E url max_repos (all_repos @ concat pages)
                     (page + length pages) s'
              \<and> calls s' = calls s + length pages"
  using assms
proof (induction pages arbitrary: all_repos page s)
  case Nil
  show ?case by (intro exI [of _ s]) simp
next
  case (Cons p ps)
  from Cons.prems(1) [rule_format, of 0] obtain r where
    get: "http_get E (url @ ''&page='' @ str_nat page) (calls s) = Returns r"
    and ok: "status_code r = 200" and items: "json_items r = Inr p" and ne: "p \<noteq> []"
    by auto
  let ?s1 = "s\<lparr>calls := calls s + 1,
                 trace := trace s @ [Get (url @ ''&page='' @ str_nat page)]\<rparr>"
  from get ok have mr: "make_request E (url @ ''&page='' @ str_nat page) 0 s = Some (Inr r, ?s1)"
    by (rule make_request_ok)
  from Cons.prems(2) have more: "int (length all_repos) < max_repos" by simp
  from items have out: "(case Inr r of Inl e \<Rightarrow> Inl e | Inr r \<Rightarrow> json_items r) = Inr p"
    by simp
  from ne Cons.prems(2) have go: "\<not> (p = [] \<or> int (length (all_repos @ p)) \<ge> max_repos)"
    by simp
  have step: "search_loop E url max_repos all_repos page s
                = search_loop E url max_repos (all_repos @ p) (page + 1) ?s1"
    by (rule search_loop_next [OF more mr out go])
  have rest: "\<forall>i<length ps. \<exists>r.
             http_get E (url @ ''&page='' @ str_nat (page + 1 + i)) (calls ?s1 + i) = Returns r
             \<and> status_code r = 200 \<and> json_items r = Inr (ps ! i) \<and> ps ! i \<noteq> []"
  proof (intro allI impI)
    fix i assume "i < length ps"
    then have "Suc i < length (p # ps)" by simp
    from Cons.prems(1) [rule_format, OF this] show "\<exists>r.
             http_get E (url @ ''&page='' @ str_nat (page + 1 + i)) (calls ?s1 + i) = Returns r
             \<and> status_code r = 200 \<and> json_items r = Inr (ps ! i) \<and> ps ! i \<noteq> []"
      by simp
  qed
  from Cons.prems(2) have room: "int (length ((all_repos @ p) @ concat ps)) < max_repos"
    by simp
  from Cons.IH [OF rest room] obtain s' where
    "search_loop E url max_repos (all_repos @ p) (page + 1) ?s1
       = search_loop E url max_repos ((all_repos @ p) @ concat ps) (page + 1 + length ps) s'"
    and "calls s' = calls ?s1 + length ps"
    by blast
  with step show ?case by (intro exI [of _ s']) simp
qed


text \<open>Any number of pages, and then a page whose request fails four times.\<close>

lemma pages_then_error:
  assumes pages: "\<forall>i<length pages. \<exists>r.
             http_get E (url @ ''&page='' @ str_nat (i + 1)) (calls s + i) = Returns r
             \<and> status_code r = 200 \<and> json_items r = Inr (pages ! i) \<and> pages ! i \<noteq> []"
    and lt: "int (length (concat pages)) < max_repos"
    and fails: "\<forall>j<4. request_fails E (url @ ''&page='' @ str_nat (length pages + 1))
                        (calls s + length pages + j) (e j)"
  shows "\<exists>s'. search_loop E url max_repos [] 1 s = Some (Inr (concat pages), s')
              \<and> calls s' = calls s + length pages + 4"
proof -
  from pages have pages': "\<forall>i<length pages. \<exists>r.
             http_get E (url @ ''&page='' @ str_nat (1 + i)) (calls s + i) = Returns r
             \<and> status_code r = 200 \<and> json_items r = Inr (pages ! i) \<and> pages ! i \<noteq> []"
    by (simp add: add.commute)
  from lt have lt': "int (length ([] @ concat pages)) < max_repos" by simp
  from search_loop_collects [OF pages' lt'] obtain s1 where
    collected: "search_loop E url max_repos [] 1 s
                  = search_loop E url max_repos ([] @ concat pages) (1 + length pages) s1"
    and count: "calls s1 = calls s + length pages"
    by blast
  let ?u = "url @ ''&page='' @ str_nat (1 + length pages)"
  let ?s5 = "s1\<lparr>calls := calls s1 + 4,
                  trace := trace s1 @ [Get ?u, Sleep 1, Get ?u, Sleep 2, Get ?u, Sleep 4, Get ?u]\<rparr>"
  have f0: "request_fails E ?u (calls s1) (e 0)"
    using fails [rule_format, of 0] count by (simp add: add.commute)
  have f1: "request_fails E ?u (calls s1 + 1) (e 1)"
    using fails [rule_format, of 1] count by (simp add: add.commute)
  have f2: "request_fails E ?u (calls s1 + 2) (e 2)"
    using fails [rule_format, of 2] count by (simp add: add.commute)
  have f3: "request_fails E ?u (calls s1 + 3) (e 3)"
    using fails [rule_format, of 3] count by (simp add: add.commute)
  have mr: "make_request E ?u 0 s1 = Some (Inl (e 3), ?s5)"
    by (rule make_request_four_failures [OF f0 f1 f2 f3])
  have out: "(case Inl (e 3) of Inl e \<Rightarrow> Inl e | Inr r \<Rightarrow> json_items r) = Inl (e 3)"
    by simp
  from f3 have req: "is_request_exception (e 3)" by (simp add: request_fails_def)
  from lt have whole: "slice_to ([] @ concat pages) max_repos = concat pages"
    by (simp add: slice_to_all)
  have "search_loop E url max_repos ([] @ concat pages) (1 + length pages) s1
          = Some (Inr (concat pages), ?s5)"
    using req whole search_loop_error [OF lt' mr out] by simp
  with collected count show ?thesis
    by (intro exI [of _ ?s5]) simp
qed

text \<open>
  Claim C4. When the request for a page raises an exception of class
  \<open>RequestException\<close>, the loop stops and \<open>search_repos\<close> returns the items
  collected so far as an ordinary result (first part, on the loop at any page; fewer
  than the maximum are collected there, so nothing is cut off). In particular, when the
  first page arrives with fewer items than the maximum and the four attempts at the
  second page all fail, the result is exactly the items of the first page (second part).
  In general, when the pages 1 to \<open>n - 1\<close> arrive, none empty and together fewer
  than the maximum, and the four attempts at page \<open>n\<close> all fail, the result is the
  items of those pages in order (third part, with \<open>n - 1\<close> the length of
  \<open>pages\<close>).
\<close>

theorem search_stops_at_request_error:
  "(int (length all_repos) < max_repos
      \<and> make_request E (url @ ''&page='' @ str_nat page) 0 s = Some (Inl e', s1)
      \<and> is_request_exception e'
      \<longrightarrow> search_loop E url max_repos all_repos page s = Some (Inr all_repos, s1))
   \<and> (http_get E (search_url query sort_by order per_page @ ''&page=1'') (calls s) = Returns r
        \<and> status_code r = 200 \<and> json_items r = Inr items \<and> items \<noteq> []
        \<and> int (length items) < max_repos
        \<and> (\<forall>i<4. request_fails E (search_url query sort_by order per_page @ ''&page=2'')
                     (calls s + 1 + i) (e i))
      \<longrightarrow> search_repos E query sort_by order per_page max_repos s =
            Some (Inr items,
                  s\<lparr>calls := calls s + 5,
                    trace := trace s
                      @ [Get (search_url query sort_by order per_page @ ''&page=1''),
                         Get (search_url query sort_by order per_page @ ''&page=2''), Sleep 1,
                         Get (search_url query sort_by order per_page @ ''&page=2''), Sleep 2,
                         Get (search_url query sort_by order per_page @ ''&page=2''), Sleep 4,
                         Get (search_url query sort_by order per_page @ ''&page=2'')]\<rparr>))
   \<and> ((\<forall>i<length pages. \<exists>r'.
          http_get E (search_url query sort_by order per_page @ ''&page='' @ str_nat (i + 1))
            (calls s + i) = Returns r'
          \<and> status_code r' = 200 \<and> json_items r' = Inr (pages ! i) \<and> pages ! i \<noteq> [])
        \<and> int (length (concat pages)) < max_repos
        \<and> (\<forall>j<4. request_fails E
                     (search_url query sort_by order per_page @ ''&page=''
                        @ str_nat (length pages + 1))
                     (calls s + length pages + j) (e j))
      \<longrightarrow> (\<exists>s'. search_repos E query sort_by order per_page max_repos s
                   = Some (Inr (concat pages), s')
                 \<and> calls s' = calls s + length pages + 4))"
proof (intro conjI impI)
  assume a: "int (length all_repos) < max_repos
      \<and> make_request E (url @ ''&page='' @ str_nat page) 0 s = Some (Inl e', s1)
      \<and> is_request_exception e'"
  then have more: "int (length all_repos) < max_repos"
    and mr: "make_request E (url @ ''&page='' @ str_nat page) 0 s = Some (Inl e', s1)"
    by simp_all
  have out: "(case Inl e' of Inl e \<Rightarrow> Inl e | Inr r \<Rightarrow> json_items r) = Inl e'"
    by simp
  from a show "search_loop E url max_repos all_repos page s = Some (Inr all_repos, s1)"
    by (simp add: search_loop_error [OF more mr out] slice_to_all)
next
  let ?url = "search_url query sort_by order per_page"
  assume b: "http_get E (?url @ ''&page=1'') (calls s) = Returns r
        \<and> status_code r = 200 \<and> json_items r = Inr items \<and> items \<noteq> []
        \<and> int (length items) < max_repos
        \<and> (\<forall>i<4. request_fails E (?url @ ''&page=2'') (calls s + 1 + i) (e i))"
  let ?s1 = "s\<lparr>calls := calls s + 1, trace := trace s @ [Get (?url @ ''&page=1'')]\<rparr>"
  let ?s5 = "?s1\<lparr>calls := calls ?s1 + 4,
                   trace := trace ?s1 @ [Get (?url @ ''&page=2''), Sleep 1,
                                         Get (?url @ ''&page=2''), Sleep 2,
                                         Get (?url @ ''&page=2''), Sleep 4,
                                         Get (?url @ ''&page=2'')]\<rparr>"
  from b have mr1: "make_request E (?url @ ''&page='' @ str_nat 1) 0 s = Some (Inr r, ?s1)"
    by (intro first_page) simp_all
  from b have more0: "int (length ([] :: repo_info list)) < max_repos" by simp
  from b have out1: "(case Inr r of Inl e \<Rightarrow> Inl e | Inr r \<Rightarrow> json_items r) = Inr items"
    by simp
  from b have go: "\<not> (items = [] \<or> int (length ([] @ items)) \<ge> max_repos)" by simp
  have round1: "search_loop E ?url max_repos [] 1 s
                  = search_loop E ?url max_repos ([] @ items) (1 + 1) ?s1"
    by (rule search_loop_next [OF more0 mr1 out1 go])
  from b have all: "\<forall>i<4. request_fails E (?url @ ''&page=2'') (calls s + 1 + i) (e i)"
    by simp
  have f0: "request_fails E (?url @ ''&page=2'') (calls ?s1) (e 0)"
    using all [rule_format, of 0] by simp
  have f1: "request_fails E (?url @ ''&page=2'') (calls ?s1 + 1) (e 1)"
    using all [rule_format, of 1] by simp
  have f2: "request_fails E (?url @ ''&page=2'') (calls ?s1 + 2) (e 2)"
    using all [rule_format, of 2] by simp
  have f3: "request_fails E (?url @ ''&page=2'') (calls ?s1 + 3) (e 3)"
    using all [rule_format, of 3] by simp
  have mr2: "make_request E (?url @ ''&page='' @ str_nat (1 + 1)) 0 ?s1 = Some (Inl (e 3), ?s5)"
    using make_request_four_failures [OF f0 f1 f2 f3] by (simp add: str_nat_Suc_1)
  from b have more1: "int (length ([] @ items)) < max_repos" by simp
  have out2: "(case Inl (e 3) of Inl e \<Rightarrow> Inl e | Inr r \<Rightarrow> json_items r) = Inl (e 3)"
    by simp
  from f3 have req: "is_request_exception (e 3)" by (simp add: request_fails_def)
  from b have whole: "slice_to ([] @ items) max_repos = items"
    by (simp add: slice_to_all)
  have "search_loop E ?url max_repos ([] @ items) (1 + 1) ?s1 = Some (Inr items, ?s5)"
    using req whole by (simp only: search_loop_error [OF more1 mr2 out2] if_True)
  with round1 show "search_repos E query sort_by order per_page max_repos s =
            Some (Inr items,
                  s\<lparr>calls := calls s + 5,
                    trace := trace s
                      @ [Get (?url @ ''&page=1''),
                         Get (?url @ ''&page=2''), Sleep 1,
                         Get (?url @ ''&page=2''), Sleep 2,
                         Get (?url @ ''&page=2''), Sleep 4,
                         Get (?url @ ''&page=2'')]\<rparr>)"
    by (simp add: search_repos_def)
next
  let ?url = "search_url query sort_by order per_page"
  assume c: "(\<forall>i<length pages. \<exists>r'.
          http_get E (?url @ ''&page='' @ str_nat (i + 1)) (calls s + i) = Returns r'
          \<and> status_code r' = 200 \<and> json_items r' = Inr (pages ! i) \<and> pages ! i \<noteq> [])
        \<and> int (length (concat pages)) < max_repos
        \<and> (\<forall>j<4. request_fails E (?url @ ''&page='' @ str_nat (length pages + 1))
                     (calls s + length pages + j) (e j))"
  then have arrive: "\<forall>i<length pages. \<exists>r'.
          http_get E (?url @ ''&page='' @ str_nat (i + 1)) (calls s + i) = Returns r'
          \<and> status_code r' = 200 \<and> json_items r' = Inr (pages ! i) \<and> pages ! i \<noteq> []"
    and few: "int (length (concat pages)) < max_repos"
    and fail: "\<forall>j<4. request_fails E (?url @ ''&page='' @ str_nat (length pages + 1))
                     (calls s + length pages + j) (e j)"
    by blast+
  show "\<exists>s'. search_repos E query sort_by order per_page max_repos s
                   = Some (Inr (concat pages), s')
             \<and> calls s' = calls s + length pages + 4"
    unfolding search_repos_def by (rule pages_then_error [OF arrive few fail])
qed

text \<open>
  The first request brings a page of 100 items, after which the server cannot be
  reached: with a maximum of 1000 the result is that page.
\<close>

theorem search_stops_at_request_error_witness:
  "search_repos (env_of (\<lambda>n. if n = 0 then Returns (ok_response sample_page) else unreachable))
     ''stars:>100'' ''stars'' ''desc'' 100 1000 st0
     = Some (Inr sample_page,
             \<lparr>calls = 5, ticks = 0,
              trace = [Get (search_url ''stars:>100'' ''stars'' ''desc'' 100 @ ''&page=1''),
                       Get (search_url ''stars:>100'' ''stars'' ''desc'' 100 @ ''&page=2''),
                       Sleep 1,
                       Get (search_url ''stars:>100'' ''stars'' ''desc'' 100 @ ''&page=2''),
                       Sleep 2,
                       Get (search_url ''stars:>100'' ''stars'' ''desc'' 100 @ ''&page=2''),
                       Sleep 4,
                       Get (search_url ''stars:>100'' ''stars'' ''desc'' 100 @ ''&page=2'')]\<rparr>)
   \<and> length sample_page = 100
   \<and> search_loop sample_env ''u'' 1000 sample_page 2 st0
       = Some (Inr sample_page,
               \<lparr>calls = 4, ticks = 0,
                trace = [Get ''u&page=2'', Sleep 1, Get ''u&page=2'', Sleep 2,
                         Get ''u&page=2'', Sleep 4, Get ''u&page=2'']\<rparr>)
   \<and> (\<exists>s'. search_repos
              (env_of (\<lambda>n. if n = 0 then Returns (ok_response sample_page) else unreachable))
              ''stars:>100'' ''stars'' ''desc'' 100 1000 st0
              = Some (Inr (concat [sample_page]), s')
            \<and> calls s' = 5)"
proof -
  let ?E = "env_of (\<lambda>n. if n = 0 then Returns (ok_response sample_page) else unreachable)"
  let ?url = "search_url ''stars:>100'' ''stars'' ''desc'' 100"
  have len: "length sample_page = 100" by (simp add: sample_page_def)
  have ne: "sample_page \<noteq> []" using len by auto
  have h2: "http_get ?E (?url @ ''&page=1'') (calls st0) = Returns (ok_response sample_page)
        \<and> status_code (ok_response sample_page) = 200
        \<and> json_items (ok_response sample_page) = Inr sample_page \<and> sample_page \<noteq> []
        \<and> int (length sample_page) < 1000
        \<and> (\<forall>i<4. request_fails ?E (?url @ ''&page=2'') (calls st0 + 1 + i)
                     ((\<lambda>i. RequestException ''unreachable'') i))"
    using ne len
    by (simp add: env_of_def ok_response_def request_fails_def unreachable_def st0_def)
  have first: "search_repos ?E ''stars:>100'' ''stars'' ''desc'' 100 1000 st0
     = Some (Inr sample_page,
             \<lparr>calls = 5, ticks = 0,
              trace = [Get (?url @ ''&page=1''),
                       Get (?url @ ''&page=2''), Sleep 1,
                       Get (?url @ ''&page=2''), Sleep 2,
                       Get (?url @ ''&page=2''), Sleep 4,
                       Get (?url @ ''&page=2'')]\<rparr>)"
    using h2 search_stops_at_request_error
      [where E = ?E and query = "''stars:>100''" and sort_by = "''stars''"
         and order = "''desc''" and per_page = 100 and max_repos = 1000 and s = st0
         and r = "ok_response sample_page" and items = sample_page
         and e = "\<lambda>i. RequestException ''unreachable''", THEN conjunct2, THEN conjunct1]
    by (simp add: st0_def)
  let ?s4 = "\<lparr>calls = 4, ticks = 0,
              trace = [Get ''u&page=2'', Sleep 1, Get ''u&page=2'', Sleep 2,
                       Get ''u&page=2'', Sleep 4, Get ''u&page=2'']\<rparr>"
  have fails: "\<forall>i<4. request_fails sample_env ''u&page=2'' (calls st0 + i)
                 ((\<lambda>i. RequestException ''unreachable'') i)"
    by (simp add: request_fails_def sample_env_def)
  have mr: "make_request sample_env (''u'' @ ''&page='' @ str_nat 2) 0 st0
              = Some (Inl (RequestException ''unreachable''), ?s4)"
    using make_request_four_failures [of sample_env "''u&page=2''" st0
        "RequestException ''unreachable''" "RequestException ''unreachable''"
        "RequestException ''unreachable''" "RequestException ''unreachable''"]
    by (simp add: request_fails_def sample_env_def st0_def str_nat_2)
  have h1: "int (length sample_page) < 1000
      \<and> make_request sample_env (''u'' @ ''&page='' @ str_nat 2) 0 st0
          = Some (Inl (RequestException ''unreachable''), ?s4)
      \<and> is_request_exception (RequestException ''unreachable'')"
    using len mr by simp
  have second: "search_loop sample_env ''u'' 1000 sample_page 2 st0 = Some (Inr sample_page, ?s4)"
    using h1 search_stops_at_request_error
      [where E = sample_env and url = "''u''" and max_repos = 1000
         and all_repos = sample_page and page = 2 and s = st0
         and e' = "RequestException ''unreachable''" and ?s1.0 = ?s4, THEN conjunct1]
    by blast
  have h3: "(\<forall>i<length [sample_page]. \<exists>r'.
          http_get ?E (?url @ ''&page='' @ str_nat (i + 1)) (calls st0 + i) = Returns r'
          \<and> status_code r' = 200 \<and> json_items r' = Inr ([sample_page] ! i)
          \<and> [sample_page] ! i \<noteq> [])
        \<and> int (length (concat [sample_page])) < 1000
        \<and> (\<forall>j<4. request_fails ?E (?url @ ''&page='' @ str_nat (length [sample_page] + 1))
                     (calls st0 + length [sample_page] + j)
                     ((\<lambda>i. RequestException ''unreachable'') j))"
    using ne len
    by (simp add: env_of_def ok_response_def request_fails_def unreachable_def st0_def)
  have third: "\<exists>s'. search_repos ?E ''stars:>100'' ''stars'' ''desc'' 100 1000 st0
                      = Some (Inr (concat [sample_page]), s')
                    \<and> calls s' = 5"
    using h3 search_stops_at_request_error
      [where E = ?E and query = "''stars:>100''" and sort_by = "''stars''"
         and order = "''desc''" and per_page = 100 and max_repos = 1000 and s = st0
         and pages = "[sample_page]"
         and e = "\<lambda>i. RequestException ''unreachable''", THEN conjunct2, THEN conjunct2]
    by (simp add: st0_def)
  from first len second third show ?thesis by blast
qed

section \<open>The report builder: required fields\<close>

text \<open>
  Claim C8. \<open>check_repository\<close> turns one record into one result that carries the
  fields of the record and the verdicts of both classifiers (second part; the
  description alone has a default, the empty text). When one of \<open>full_name\<close>,
  \<open>html_url\<close>, \<open>stargazers_count\<close>, \<open>open_issues_count\<close>, \<open>pushed_at\<close>,
  \<open>created_at\<close> is missing, the call raises the \<open>KeyError\<close> of the first missing
  one, in that order, and nothing else happens (first part).
\<close>

theorem check_repository_fields:
  "(find (\<lambda>k. map_of d k = None)
       [''full_name'', ''html_url'', ''stargazers_count'', ''open_issues_count'',
        ''pushed_at'', ''created_at''] = Some k
      \<longrightarrow> check_repository E (Some d) s = (Inl (KeyError k), s))
   \<and> (map_of d ''full_name'' = Some full_name \<and> map_of d ''html_url'' = Some html_url
        \<and> map_of d ''stargazers_count'' = Some stargazers_count
        \<and> map_of d ''open_issues_count'' = Some open_issues_count
        \<and> map_of d ''pushed_at'' = Some pushed_at \<and> map_of d ''created_at'' = Some created_at
        \<and> is_repo_outdated E (Some d) s = (Inr is_outdated, s1)
        \<and> is_repo_broken E (Some d) s1 = (Inr is_broken, s2)
      \<longrightarrow> check_repository E (Some d) s =
            (Inr \<lparr> res_name = full_name, res_url = html_url,
                   res_description =
                     (case map_of d ''description'' of None \<Rightarrow> JStr [] | Some v \<Rightarrow> v),
                   res_stars = stargazers_count, res_open_issues = open_issues_count,
                   res_last_push = pushed_at, res_created_at = created_at,
                   res_is_outdated = is_outdated, res_is_broken = is_broken \<rparr>, s2))"
proof (intro conjI impI)
  assume "find (\<lambda>k. map_of d k = None)
       [''full_name'', ''html_url'', ''stargazers_count'', ''open_issues_count'',
        ''pushed_at'', ''created_at''] = Some k"
  then show "check_repository E (Some d) s = (Inl (KeyError k), s)"
    by (auto simp add: check_repository_def subscript_def split: if_splits)
next
  assume "map_of d ''full_name'' = Some full_name \<and> map_of d ''html_url'' = Some html_url
        \<and> map_of d ''stargazers_count'' = Some stargazers_count
        \<and> map_of d ''open_issues_count'' = Some open_issues_count
        \<and> map_of d ''pushed_at'' = Some pushed_at \<and> map_of d ''created_at'' = Some created_at
        \<and> is_repo_outdated E (Some d) s = (Inr is_outdated, s1)
        \<and> is_repo_broken E (Some d) s1 = (Inr is_broken, s2)"
  then show "check_repository E (Some d) s =
            (Inr \<lparr> res_name = full_name, res_url = html_url,
                   res_description =
                     (case map_of d ''description'' of None \<Rightarrow> JStr [] | Some v \<Rightarrow> v),
                   res_stars = stargazers_count, res_open_issues = open_issues_count,
                   res_last_push = pushed_at, res_created_at = created_at,
                   res_is_outdated = is_outdated, res_is_broken = is_broken \<rparr>, s2)"
    by (simp add: check_repository_def subscript_def dict_get_def)
qed

text \<open>
  A record without \<open>html_url\<close> (and without four more of the fields), and a complete
  one, pushed exactly 365 days before the first reading of the sample clock.
\<close>

theorem check_repository_fields_witness:
  "check_repository sample_env
     (Some [(''full_name'', JStr ''octocat/hello''), (''stargazers_count'', JInt 7)]) st0
     = (Inl (KeyError ''html_url''), st0)
   \<and> check_repository sample_env (Some (sample_repo ''octocat/hello'' 50)) st0
     = (Inr \<lparr> res_name = JStr ''octocat/hello'',
              res_url = JStr ''https://github.com/octocat/hello'',
              res_description = JStr [],
              res_stars = JInt 50, res_open_issues = JInt 3,
              res_last_push = JStr ''2020-01-01T00:00:00Z'',
              res_created_at = JStr ''2019-01-01T00:00:00Z'',
              res_is_outdated = False, res_is_broken = False \<rparr>,
        st0\<lparr>ticks := 2\<rparr>)"
proof -
  let ?d = "sample_repo ''octocat/hello'' 50"
  have h1: "find (\<lambda>k. map_of [(''full_name'', JStr ''octocat/hello''),
                             (''stargazers_count'', JInt 7)] k = None)
       [''full_name'', ''html_url'', ''stargazers_count'', ''open_issues_count'',
        ''pushed_at'', ''created_at''] = Some ''html_url''"
    by simp
  have out: "is_repo_outdated sample_env (Some ?d) st0 = (Inr False, st0\<lparr>ticks := 1\<rparr>)"
    by (simp add: is_repo_outdated_def py_not_def py_in_def subscript_def sample_repo_def
        sample_env_def datetime_utcnow_def timedelta_days_def OUTDATED_THRESHOLD_DAYS_def
        st0_def)
  have brk: "is_repo_broken sample_env (Some ?d) (st0\<lparr>ticks := 1\<rparr>)
               = (Inr False, st0\<lparr>ticks := 2\<rparr>)"
    by (simp add: is_repo_broken_def py_not_def py_in_def subscript_def sample_repo_def
        sample_env_def datetime_utcnow_def timedelta_days_def BROKEN_THRESHOLD_DAYS_def
        BROKEN_ISSUES_THRESHOLD_def py_gt_def dict_get_def st0_def)
  have h2: "map_of ?d ''full_name'' = Some (JStr ''octocat/hello'')
        \<and> map_of ?d ''html_url'' = Some (JStr ''https://github.com/octocat/hello'')
        \<and> map_of ?d ''stargazers_count'' = Some (JInt 50)
        \<and> map_of ?d ''open_issues_count'' = Some (JInt 3)
        \<and> map_of ?d ''pushed_at'' = Some (JStr ''2020-01-01T00:00:00Z'')
        \<and> map_of ?d ''created_at'' = Some (JStr ''2019-01-01T00:00:00Z'')
        \<and> is_repo_outdated sample_env (Some ?d) st0 = (Inr False, st0\<lparr>ticks := 1\<rparr>)
        \<and> is_repo_broken sample_env (Some ?d) (st0\<lparr>ticks := 1\<rparr>)
            = (Inr False, st0\<lparr>ticks := 2\<rparr>)"
    using out brk by (simp add: sample_repo_def)
  have none: "map_of ?d ''description'' = None"
    by (simp add: sample_repo_def)
  from h1 check_repository_fields
      [where d = "[(''full_name'', JStr ''octocat/hello''), (''stargazers_count'', JInt 7)]"
         and k = "''html_url''" and E = sample_env and s = st0, THEN conjunct1]
  have first: "check_repository sample_env
     (Some [(''full_name'', JStr ''octocat/hello''), (''stargazers_count'', JInt 7)]) st0
     = (Inl (KeyError ''html_url''), st0)"
    by blast
  from h2 check_repository_fields
      [where d = ?d and E = sample_env and s = st0
         and ?s1.0 = "st0\<lparr>ticks := 1\<rparr>" and ?s2.0 = "st0\<lparr>ticks := 2\<rparr>"
         and full_name = "JStr ''octocat/hello''"
         and html_url = "JStr ''https://github.com/octocat/hello''"
         and stargazers_count = "JInt 50" and open_issues_count = "JInt 3"
         and pushed_at = "JStr ''2020-01-01T00:00:00Z''"
         and created_at = "JStr ''2019-01-01T00:00:00Z''"
         and is_outdated = False and is_broken = False, THEN conjunct2]
  have second: "check_repository sample_env (Some ?d) st0
     = (Inr \<lparr> res_name = JStr ''octocat/hello'',
              res_url = JStr ''https://github.com/octocat/hello'',
              res_description =
                (case map_of ?d ''description'' of None \<Rightarrow> JStr [] | Some v \<Rightarrow> v),
              res_stars = JInt 50, res_open_issues = JInt 3,
              res_last_push = JStr ''2020-01-01T00:00:00Z'',
              res_created_at = JStr ''2019-01-01T00:00:00Z'',
              res_is_outdated = False, res_is_broken = False \<rparr>,
        st0\<lparr>ticks := 2\<rparr>)"
    by blast
  from first second none show ?thesis by simp
qed

section \<open>The orchestrator: the order of the results\<close>









end
